theory Spec2Isabelle
  imports Main "HOL-Library.AList"
begin

section \<open>The node manager of dlrover: data model\<close>

text \<open>
  The embedding follows \<^verbatim>\<open>dlrover/python/master/node/node_manager.py\<close>.
  The constants, the \<^verbatim>\<open>Node\<close> class and the state-flow table live in modules
  that are imported by that file; their shape is taken from the way the file uses them.
\<close>

text \<open>Modelled from the spec: \<^verbatim>\<open>common/constants.py\<close> is not among the sources.
  \<^verbatim>\<open>NodeStatus\<close>, \<^verbatim>\<open>NodeEventType\<close> (its \<^verbatim>\<open>DELETED\<close> is suffixed, the name
  being taken by the status), \<^verbatim>\<open>NodeExitReason\<close> and \<^verbatim>\<open>NodeType\<close> have the members
  of sections 3 and 6; the manager names all of them but \<^verbatim>\<open>ADDED\<close>, \<^verbatim>\<open>NONE\<close>
  and \<^verbatim>\<open>UNKNOWN\<close>.\<close>

datatype node_status = INITIAL | PENDING | RUNNING | SUCCEEDED | FAILED | DELETED

datatype node_event_type = ADDED | MODIFIED | DELETED_event

datatype node_exit_reason = NONE | KILLED | OOM | FATAL_ERROR | UNKNOWN

datatype node_type = PS | CHIEF | WORKER | EVALUATOR

datatype error = KeyError

text \<open>The attributes of a \<^verbatim>\<open>Node\<close> that the manager reads or writes, as integers,
  strings and flags. \<^verbatim>\<open>type\<close> and \<^verbatim>\<open>id\<close> are primed; \<^verbatim>\<open>used_memory\<close> is
  \<^verbatim>\<open>used_resource.memory\<close>.\<close>

record node =
  type' :: node_type
  id' :: int
  name :: string
  status :: node_status
  exit_reason :: node_exit_reason
  start_time :: int
  create_time :: int
  used_memory :: int
  relaunch_count :: int
  max_relaunch_count :: int
  critical :: bool
  relaunchable :: bool
  is_released :: bool
  is_recovered_oom :: bool

record node_event =
  event_type :: node_event_type
  event_node :: node

text \<open>\<^verbatim>\<open>NodeStateFlow\<close>: the three attributes the manager reads. The attribute
  \<^verbatim>\<open>should_relaunch\<close> is prefixed, the name being used for the manager's method.\<close>

record node_state_flow =
  from_status :: node_status
  to_status :: node_status
  flow_should_relaunch :: bool

text \<open>The table \<^verbatim>\<open>get_node_state_flow\<close> of \<^verbatim>\<open>status_flow.py\<close> is a parameter of
  every operation that consults it: \<open>None\<close> is Python's \<^verbatim>\<open>None\<close>.\<close>

type_synonym state_flow_table =
  "node_status \<Rightarrow> node_event_type \<Rightarrow> node_status \<Rightarrow> node_state_flow option"

text \<open>The four methods of a \<^verbatim>\<open>NodeEventCallback\<close>, and one invocation of a method
  of the subscriber \<open>cb\<close> on the node stored under the key \<open>(type, id)\<close>.\<close>

datatype callback_method =
  on_node_started | on_node_succeeded | on_node_failed | on_node_deleted

type_synonym callback_call = "nat \<times> callback_method \<times> node_type \<times> int"

text \<open>
  The state of a \<^verbatim>\<open>NodeManager\<close>. \<^verbatim>\<open>_job_nodes\<close> is a dict of dicts; both levels
  are association lists in insertion order, read with \<^const>\<open>map_of\<close>. Subscribers are
  identified by numbers. \<open>fired\<close> is the trace of the callback invocations made so far,
  oldest first: subscribers only observe, so an invocation is modelled by its record in
  the trace.
\<close>

type_synonym job_nodes_dict = "(node_type \<times> (int \<times> node) list) list"

record node_manager =
  job_nodes :: job_nodes_dict
  node_event_callbacks :: "nat list"
  relaunch_pod :: bool
  wait_pending_relaunch :: bool
  pending_relaunch_count :: int
  stop_monitor :: bool
  fired :: "callback_call list"

section \<open>The methods of Node\<close>

text \<open>Modelled from the spec: the class \<^verbatim>\<open>Node\<close> of \<^verbatim>\<open>watcher/base_watcher.py\<close> is
  not among the sources. Section 4.A names its mutators; \<^verbatim>\<open>update_info\<close> refreshes
  name, start time and create time.\<close>

definition update_info :: "string \<Rightarrow> int \<Rightarrow> int \<Rightarrow> node \<Rightarrow> node" where
  "update_info nm st ct n = n\<lparr>name := nm, start_time := st, create_time := ct\<rparr>"

text \<open>Modelled from the spec: \<^verbatim>\<open>Node.update_status(s)\<close> stores the status.\<close>

definition update_status :: "node_status \<Rightarrow> node \<Rightarrow> node" where
  "update_status s n = n\<lparr>status := s\<rparr>"

text \<open>Modelled from the spec: \<^verbatim>\<open>Node.set_exit_reason(r)\<close> stores the exit reason.\<close>

definition set_exit_reason :: "node_exit_reason \<Rightarrow> node \<Rightarrow> node" where
  "set_exit_reason r n = n\<lparr>exit_reason := r\<rparr>"

text \<open>Modelled from the spec: \<^verbatim>\<open>Node.inc_relaunch_count()\<close> adds one to the counter.\<close>

definition inc_relaunch_count :: "node \<Rightarrow> node" where
  "inc_relaunch_count n = n\<lparr>relaunch_count := relaunch_count n + 1\<rparr>"

section \<open>Access to the node index\<close>

text \<open>\<^verbatim>\<open>self._job_nodes[node_type][node_id]\<close>: either subscript raises
  \<^verbatim>\<open>KeyError\<close> on a missing key.\<close>

definition get_node :: "job_nodes_dict \<Rightarrow> node_type \<Rightarrow> int \<Rightarrow> error + node" where
  "get_node jn t i =
     (case map_of jn t of
        None \<Rightarrow> Inl KeyError
      | Some grp \<Rightarrow> (case map_of grp i of None \<Rightarrow> Inl KeyError | Some n \<Rightarrow> Inr n))"

text \<open>The node object found under \<open>(t, i)\<close> is mutated in place; the model writes the
  mutated record back at the same position.\<close>

definition put_node :: "node_type \<Rightarrow> int \<Rightarrow> node \<Rightarrow> job_nodes_dict \<Rightarrow> job_nodes_dict" where
  "put_node t i n jn = AList.map_entry t (AList.map_entry i (\<lambda>_. n)) jn"

section \<open>Callback dispatch\<close>

text \<open>\<^verbatim>\<open>add_node_event_callback\<close> appends the subscriber: the list is in registration
  order.\<close>

definition add_node_event_callback :: "nat \<Rightarrow> node_manager \<Rightarrow> node_manager" where
  "add_node_event_callback pod_event_callback m =
     m\<lparr>node_event_callbacks := node_event_callbacks m @ [pod_event_callback]\<rparr>"

text \<open>One list comprehension of \<^verbatim>\<open>_process_node_events\<close>: the method is called on
  every subscriber, in the order of \<^verbatim>\<open>_node_event_callbacks\<close>. The node handed to
  the subscribers is an object of the index; it is identified by the key \<open>(t, i)\<close> under
  which the index holds it.\<close>

definition fire :: "callback_method \<Rightarrow> node_type \<times> int \<Rightarrow> node_manager \<Rightarrow> node_manager" where
  "fire meth k m =
     m\<lparr>fired := fired m @ map (\<lambda>cb. (cb, meth, fst k, snd k)) (node_event_callbacks m)\<rparr>"

definition process_node_events ::
  "node_state_flow \<Rightarrow> node_type \<times> int \<Rightarrow> node_manager \<Rightarrow> node_manager" where
  "process_node_events status_change_flow k m =
     (if to_status status_change_flow = RUNNING then fire on_node_started k m
      else if to_status status_change_flow = SUCCEEDED then fire on_node_succeeded k m
      else if to_status status_change_flow = FAILED then fire on_node_failed k m
      else if from_status status_change_flow \<noteq> FAILED
            \<and> from_status status_change_flow \<noteq> SUCCEEDED
            \<and> to_status status_change_flow = DELETED then fire on_node_deleted k m
      else m)"

section \<open>The relaunch policy\<close>

text \<open>\<^verbatim>\<open>_should_relaunch\<close> returns the verdict and mutates the node; the model returns
  the verdict and the node. \<open>MAX_MEMORY\<close> is \<^verbatim>\<open>NodeResourceLimit.MAX_MEMORY\<close>, a
  constant of a module that is not among the sources, and \<open>rp\<close> is
  \<^verbatim>\<open>self._relaunch_pod\<close>. The warnings are log lines only.\<close>

definition should_relaunch ::
  "int \<Rightarrow> bool \<Rightarrow> node \<Rightarrow> node_state_flow \<Rightarrow> bool \<times> node" where
  "should_relaunch MAX_MEMORY rp n status_change_flow =
     (let sr0 = (flow_should_relaunch status_change_flow \<and> rp \<and> relaunchable n);
          (sr, n1) =
            (if sr0 then
               (if exit_reason n = FATAL_ERROR then (False, n)
                else if exit_reason n = OOM then
                  (if used_memory n > MAX_MEMORY then (False, n)
                   else if relaunch_count n \<ge> max_relaunch_count n then (False, n)
                   else (sr0, n\<lparr>is_recovered_oom := True\<rparr>))
                else if exit_reason n \<noteq> KILLED then
                  (if relaunch_count n > max_relaunch_count n then (False, n) else (sr0, n))
                else (sr0, n))
             else (sr0, n))
      in if sr then (sr, inc_relaunch_count n1) else (sr, n1))"

section \<open>Event processing\<close>

text \<open>
  \<^verbatim>\<open>_process_event\<close>. The node is looked up (a missing key raises before anything is
  written), its name and times are refreshed, the flow is looked up with the status the
  node had, and the status carried by the event is stored, before the test of the flow.
  A matched flow that does not start from \<^verbatim>\<open>SUCCEEDED\<close> then stores the exit reason,
  dispatches the callbacks and asks the relaunch policy. \<^verbatim>\<open>_relaunch_typed_pod\<close> and
  the status line only log. Subscribers are taken to return normally.
\<close>

definition process_event ::
  "state_flow_table \<Rightarrow> int \<Rightarrow> node_manager \<Rightarrow> node_event \<Rightarrow> error + node_manager" where
  "process_event get_node_state_flow MAX_MEMORY m event =
     (let node_type = type' (event_node event);
          node_id = id' (event_node event)
      in case get_node (job_nodes m) node_type node_id of
           Inl e \<Rightarrow> Inl e
         | Inr cur_node0 \<Rightarrow>
             (let cur_node1 = update_info (name (event_node event))
                                (start_time (event_node event))
                                (create_time (event_node event)) cur_node0;
                  new_status = status (event_node event);
                  old_status = status cur_node1;
                  status_change_flow = get_node_state_flow old_status (event_type event) new_status;
                  cur_node2 = update_status new_status cur_node1
              in case status_change_flow of
                   None \<Rightarrow> Inr (m\<lparr>job_nodes := put_node node_type node_id cur_node2 (job_nodes m)\<rparr>)
                 | Some flow \<Rightarrow>
                     if from_status flow = SUCCEEDED
                     then Inr (m\<lparr>job_nodes := put_node node_type node_id cur_node2 (job_nodes m)\<rparr>)
                     else
                       (let cur_node3 = set_exit_reason (exit_reason (event_node event)) cur_node2;
                            m1 = process_node_events flow (node_type, node_id) m;
                            (sr, cur_node4) = should_relaunch MAX_MEMORY (relaunch_pod m1) cur_node3 flow;
                            m2 = m1\<lparr>job_nodes := put_node node_type node_id cur_node4 (job_nodes m1)\<rparr>
                        in Inr (if sr \<and> wait_pending_relaunch m2
                                then m2\<lparr>pending_relaunch_count := pending_relaunch_count m2 + 1\<rparr>
                                else m2))))"

text \<open>The watch loop of \<^verbatim>\<open>_monitor_nodes\<close>: an exception of \<^verbatim>\<open>_process_event\<close> is
  logged and the next event is taken.\<close>

definition watch_step ::
  "state_flow_table \<Rightarrow> int \<Rightarrow> node_manager \<Rightarrow> node_event \<Rightarrow> node_manager" where
  "watch_step get_node_state_flow MAX_MEMORY m event =
     (case process_event get_node_state_flow MAX_MEMORY m event of Inl e \<Rightarrow> m | Inr m' \<Rightarrow> m')"

definition process_events ::
  "state_flow_table \<Rightarrow> int \<Rightarrow> node_manager \<Rightarrow> node_event list \<Rightarrow> node_manager" where
  "process_events get_node_state_flow MAX_MEMORY m events =
     foldl (watch_step get_node_state_flow MAX_MEMORY) m events"

section \<open>Reconciliation with a list snapshot\<close>

text \<open>The first loop of \<^verbatim>\<open>_process_list_nodes\<close>: the id is appended to
  \<^verbatim>\<open>exist_pods[node.type]\<close> (a missing type raises), and a mock event is processed;
  an exception leaves the method.\<close>

fun ingest_list ::
  "state_flow_table \<Rightarrow> int \<Rightarrow> node list \<Rightarrow> (node_type \<times> int list) list \<Rightarrow> node_manager
     \<Rightarrow> error + ((node_type \<times> int list) list \<times> node_manager)" where
  "ingest_list get_node_state_flow MAX_MEMORY [] exist_pods m = Inr (exist_pods, m)"
| "ingest_list get_node_state_flow MAX_MEMORY (n # nodes) exist_pods m =
     (case map_of exist_pods (type' n) of
        None \<Rightarrow> Inl KeyError
      | Some ids \<Rightarrow>
          (let exist_pods' = AList.map_entry (type' n) (\<lambda>ids. ids @ [id' n]) exist_pods;
               event = \<lparr>event_type = (if status n = DELETED then DELETED_event else MODIFIED),
                        event_node = n\<rparr>
           in case process_event get_node_state_flow MAX_MEMORY m event of
                Inl e \<Rightarrow> Inl e
              | Inr m' \<Rightarrow> ingest_list get_node_state_flow MAX_MEMORY nodes exist_pods' m'))"

text \<open>The second loop: the inner loop over the items of one role, and the outer loop over
  the roles. \<^verbatim>\<open>exist_pods[node_type]\<close> is read only after the first two conjuncts
  hold.\<close>

fun release_missing ::
  "(node_type \<times> int list) list \<Rightarrow> node_type \<Rightarrow> (int \<times> node) list \<Rightarrow> error + (int \<times> node) list" where
  "release_missing exist_pods t [] = Inr []"
| "release_missing exist_pods t ((node_id, n) # items) =
     (if status n \<noteq> INITIAL \<and> \<not> is_released n then
        (case map_of exist_pods t of
           None \<Rightarrow> Inl KeyError
         | Some ids \<Rightarrow>
             (case release_missing exist_pods t items of
                Inl e \<Rightarrow> Inl e
              | Inr items' \<Rightarrow>
                  Inr ((node_id, if node_id \<notin> set ids then n\<lparr>is_released := True\<rparr> else n) # items')))
      else
        (case release_missing exist_pods t items of
           Inl e \<Rightarrow> Inl e
         | Inr items' \<Rightarrow> Inr ((node_id, n) # items')))"

fun release_all_missing ::
  "(node_type \<times> int list) list \<Rightarrow> job_nodes_dict \<Rightarrow> error + job_nodes_dict" where
  "release_all_missing exist_pods [] = Inr []"
| "release_all_missing exist_pods ((t, items) # groups) =
     (case release_missing exist_pods t items of
        Inl e \<Rightarrow> Inl e
      | Inr items' \<Rightarrow>
          (case release_all_missing exist_pods groups of
             Inl e \<Rightarrow> Inl e
           | Inr groups' \<Rightarrow> Inr ((t, items') # groups')))"

definition process_list_nodes ::
  "state_flow_table \<Rightarrow> int \<Rightarrow> node_manager \<Rightarrow> node list \<Rightarrow> error + node_manager" where
  "process_list_nodes get_node_state_flow MAX_MEMORY m nodes =
     (let exist_pods = map (\<lambda>node_type. (node_type, [])) (map fst (job_nodes m))
      in case ingest_list get_node_state_flow MAX_MEMORY nodes exist_pods m of
           Inl e \<Rightarrow> Inl e
         | Inr (exist_pods', m') \<Rightarrow>
             (case release_all_missing exist_pods' (job_nodes m') of
                Inl e \<Rightarrow> Inl e
              | Inr jn \<Rightarrow> Inr (m'\<lparr>job_nodes := jn\<rparr>)))"

section \<open>Stopping, completion and removal\<close>

text \<open>\<^verbatim>\<open>stop\<close>.\<close>

definition stop :: "node_manager \<Rightarrow> node_manager" where
  "stop m =
     m\<lparr>relaunch_pod := False,
       job_nodes := map (\<lambda>(t, items).
                      (t, map (\<lambda>(i, n). (i, n\<lparr>critical := False, is_released := True\<rparr>)) items))
                    (job_nodes m),
       stop_monitor := True\<rparr>"

text \<open>\<^verbatim>\<open>all_critical_node_completed\<close>: the list of the alive critical ids, then its
  emptiness.\<close>

definition alive_critical_nodes :: "node_manager \<Rightarrow> int list" where
  "alive_critical_nodes m =
     concat (map (\<lambda>(t, items).
                    map fst (filter (\<lambda>(i, n). critical n \<and> status n \<in> set [INITIAL, PENDING, RUNNING])
                               items))
               (job_nodes m))"

definition all_critical_node_completed :: "node_manager \<Rightarrow> bool" where
  "all_critical_node_completed m = (alive_critical_nodes m = [])"

text \<open>\<^verbatim>\<open>remove_training_nodes\<close>. The loop runs over the workers, then over the
  parameter servers, and appends the names of the nodes it removes to
  \<^verbatim>\<open>plan.removed_nodes\<close>. The method has no \<^verbatim>\<open>return\<close> statement: the body yields
  the state and the plan it has built, the method yields the state and \<^verbatim>\<open>None\<close>.\<close>

fun remove_loop :: "(int \<times> node) list \<Rightarrow> string list \<Rightarrow> (int \<times> node) list \<times> string list" where
  "remove_loop [] removed_nodes = ([], removed_nodes)"
| "remove_loop ((i, n) # items) removed_nodes =
     (if status n \<in> set [RUNNING, PENDING] \<and> \<not> is_released n then
        (let (items', removed_nodes') = remove_loop items (removed_nodes @ [name n])
         in ((i, n\<lparr>critical := False, relaunchable := False, is_released := True,
                   status := DELETED\<rparr>) # items', removed_nodes'))
      else
        (let (items', removed_nodes') = remove_loop items removed_nodes
         in ((i, n) # items', removed_nodes')))"

definition remove_training_nodes_body :: "node_manager \<Rightarrow> error + (node_manager \<times> string list)" where
  "remove_training_nodes_body m =
     (case map_of (job_nodes m) WORKER of
        None \<Rightarrow> Inl KeyError
      | Some workers \<Rightarrow>
          (case map_of (job_nodes m) PS of
             None \<Rightarrow> Inl KeyError
           | Some pss \<Rightarrow>
               (let (workers', plan1) = remove_loop workers [];
                    (pss', plan2) = remove_loop pss plan1
                in Inr (m\<lparr>job_nodes := AList.map_entry PS (\<lambda>_. pss')
                                          (AList.map_entry WORKER (\<lambda>_. workers') (job_nodes m))\<rparr>,
                        plan2))))"

definition remove_training_nodes ::
  "node_manager \<Rightarrow> error + (node_manager \<times> string list option)" where
  "remove_training_nodes m =
     (case remove_training_nodes_body m of
        Inl e \<Rightarrow> Inl e
      | Inr (m', plan) \<Rightarrow> Inr (m', None))"

section \<open>Reference definitions written from the specification\<close>

text \<open>
  Modelled from the spec: \<^verbatim>\<open>status_flow.py\<close>, which holds the table behind
  \<^verbatim>\<open>get_node_state_flow\<close>, is not among the sources. Sections 3 and 4.B describe a
  table keyed by the old status and the event type, in which the new status only tells
  the \<^verbatim>\<open>MODIFIED\<close> entries apart. This table holds the rows that section 3 names: a
  node that is \<^verbatim>\<open>INITIAL\<close>, \<^verbatim>\<open>PENDING\<close> or \<^verbatim>\<open>RUNNING\<close> goes to \<^verbatim>\<open>DELETED\<close>
  on a \<^verbatim>\<open>DELETED\<close> event with relaunch, one that is \<^verbatim>\<open>SUCCEEDED\<close> or
  \<^verbatim>\<open>FAILED\<close> without; \<^verbatim>\<open>RUNNING\<close> goes to \<^verbatim>\<open>FAILED\<close> on \<^verbatim>\<open>MODIFIED\<close> with
  relaunch; a node that has not finished goes to \<^verbatim>\<open>SUCCEEDED\<close> on \<^verbatim>\<open>MODIFIED\<close>
  without relaunch; everything else has no entry. It instantiates the table at concrete
  inputs; the general theorems hold for every table.
\<close>

definition spec_state_flow :: state_flow_table where
  "spec_state_flow old_status ev new_status =
     (if ev = DELETED_event \<and> old_status \<in> set [INITIAL, PENDING, RUNNING]
      then Some \<lparr>from_status = old_status, to_status = DELETED, flow_should_relaunch = True\<rparr>
      else if ev = DELETED_event \<and> old_status \<in> set [SUCCEEDED, FAILED]
      then Some \<lparr>from_status = old_status, to_status = DELETED, flow_should_relaunch = False\<rparr>
      else if ev = MODIFIED \<and> new_status = FAILED \<and> old_status = RUNNING
      then Some \<lparr>from_status = RUNNING, to_status = FAILED, flow_should_relaunch = True\<rparr>
      else if ev = MODIFIED \<and> new_status = SUCCEEDED \<and> old_status \<in> set [INITIAL, PENDING, RUNNING]
      then Some \<lparr>from_status = old_status, to_status = SUCCEEDED, flow_should_relaunch = False\<rparr>
      else None)"

text \<open>The decision procedure of section 4.D, step by step; a true verdict comes with the
  incremented counter.\<close>

definition relaunch_policy_spec ::
  "int \<Rightarrow> bool \<Rightarrow> node \<Rightarrow> node_state_flow \<Rightarrow> bool \<times> node" where
  "relaunch_policy_spec MAX_MEMORY relaunch_enabled n flow =
     (if \<not> (flow_should_relaunch flow \<and> relaunch_enabled \<and> relaunchable n) then (False, n)
      else if exit_reason n = FATAL_ERROR then (False, n)
      else if exit_reason n = OOM then
        (if used_memory n > MAX_MEMORY then (False, n)
         else if relaunch_count n \<ge> max_relaunch_count n then (False, n)
         else (True, n\<lparr>is_recovered_oom := True, relaunch_count := relaunch_count n + 1\<rparr>))
      else if exit_reason n \<noteq> KILLED then
        (if relaunch_count n > max_relaunch_count n then (False, n)
         else (True, n\<lparr>relaunch_count := relaunch_count n + 1\<rparr>))
      else (True, n\<lparr>relaunch_count := relaunch_count n + 1\<rparr>))"

text \<open>The dispatch rules of section 4.E, keyed by the target of the transition.\<close>

definition dispatch_rule_spec :: "node_status \<Rightarrow> node_status \<Rightarrow> callback_method option" where
  "dispatch_rule_spec prior target =
     (if target = RUNNING then Some on_node_started
      else if target = SUCCEEDED then Some on_node_succeeded
      else if target = FAILED then Some on_node_failed
      else if target = DELETED \<and> prior \<noteq> FAILED \<and> prior \<noteq> SUCCEEDED then Some on_node_deleted
      else None)"

text \<open>Concrete nodes and a manager for the scenarios: a worker, a chief, a parameter
  server and two subscribers.\<close>

definition node0 :: node where
  "node0 = \<lparr>type' = WORKER, id' = 0, name = ''worker-0'', status = RUNNING, exit_reason = NONE,
             start_time = 0, create_time = 0, used_memory = 8192, relaunch_count = 0,
             max_relaunch_count = 1, critical = True, relaunchable = True, is_released = False,
             is_recovered_oom = False\<rparr>"

definition manager0 :: node_manager where
  "manager0 =
     \<lparr>job_nodes =
        [(WORKER, [(0, node0),
                   (1, node0\<lparr>id' := 1, name := ''worker-1'', status := SUCCEEDED\<rparr>)]),
         (PS, [(0, node0\<lparr>type' := PS, name := ''ps-0'', status := PENDING\<rparr>)]),
         (CHIEF, [(0, node0\<lparr>type' := CHIEF, name := ''chief-0'', status := SUCCEEDED\<rparr>)])],
      node_event_callbacks = [0, 1],
      relaunch_pod = True,
      wait_pending_relaunch = False,
      pending_relaunch_count = 0,
      stop_monitor = False,
      fired = []\<rparr>"

text \<open>The index of scenario 6: two running workers, a worker that has succeeded and a
  pending parameter server.\<close>

definition manager6 :: node_manager where
  "manager6 =
     \<lparr>job_nodes =
        [(WORKER, [(0, node0),
                   (1, node0\<lparr>id' := 1, name := ''worker-1''\<rparr>),
                   (2, node0\<lparr>id' := 2, name := ''worker-2'', status := SUCCEEDED\<rparr>)]),
         (PS, [(0, node0\<lparr>type' := PS, name := ''ps-0'', status := PENDING\<rparr>)])],
      node_event_callbacks = [0, 1],
      relaunch_pod = True,
      wait_pending_relaunch = False,
      pending_relaunch_count = 0,
      stop_monitor = False,
      fired = []\<rparr>"

text \<open>More events and states for the scenarios. \<open>chief_running_event\<close> is the spurious
  event of scenario 5; \<open>worker_pending_event\<close> has no entry in the table from
  \<^verbatim>\<open>RUNNING\<close>; \<open>ps_deleted_event\<close> is the deletion of a pending pod, which carries
  the phase the pod had.\<close>

definition chief_running_event :: node_event where
  "chief_running_event =
     \<lparr>event_type = MODIFIED,
      event_node = node0\<lparr>type' := CHIEF, name := ''chief-0'', status := RUNNING\<rparr>\<rparr>"

definition chief_deleted_event :: node_event where
  "chief_deleted_event =
     \<lparr>event_type = DELETED_event,
      event_node = node0\<lparr>type' := CHIEF, name := ''chief-0'', status := DELETED\<rparr>\<rparr>"

definition worker_pending_event :: node_event where
  "worker_pending_event = \<lparr>event_type = MODIFIED, event_node = node0\<lparr>status := PENDING\<rparr>\<rparr>"

definition worker_succeeded_event :: node_event where
  "worker_succeeded_event = \<lparr>event_type = MODIFIED, event_node = node0\<lparr>status := SUCCEEDED\<rparr>\<rparr>"

definition worker_failed_event :: "node_exit_reason \<Rightarrow> node_event" where
  "worker_failed_event r =
     \<lparr>event_type = MODIFIED, event_node = node0\<lparr>status := FAILED, exit_reason := r\<rparr>\<rparr>"

definition ps_deleted_event :: node_event where
  "ps_deleted_event =
     \<lparr>event_type = DELETED_event,
      event_node = node0\<lparr>type' := PS, name := ''ps-0'', status := PENDING,
                         exit_reason := KILLED\<rparr>\<rparr>"

text \<open>The manager of the scenarios after worker 0 has been relaunched twice: its counter
  is at \<open>max_relaunch_count + 1\<close>.\<close>

definition manager1 :: node_manager where
  "manager1 = manager0\<lparr>job_nodes := put_node WORKER 0 (node0\<lparr>relaunch_count := 2\<rparr>)
                                        (job_nodes manager0)\<rparr>"

section \<open>The effect of one event, in closed form\<close>

text \<open>
  What \<^const>\<open>process_event\<close> does to the node it addresses, read off its branches: the
  flow that takes effect, the node afterwards, the verdict of the policy and the calls
  made. The lemma \<open>process_event_Inr\<close> below proves that these are the effect of
  \<^const>\<open>process_event\<close>.
\<close>

definition matched_flow :: "state_flow_table \<Rightarrow> node \<Rightarrow> node_event \<Rightarrow> node_state_flow option" where
  "matched_flow gsf n ev =
     (case gsf (status n) (event_type ev) (status (event_node ev)) of
        None \<Rightarrow> None
      | Some flow \<Rightarrow> if from_status flow = SUCCEEDED then None else Some flow)"

definition node_after_event :: "state_flow_table \<Rightarrow> int \<Rightarrow> bool \<Rightarrow> node \<Rightarrow> node_event \<Rightarrow> node" where
  "node_after_event gsf MAX_MEMORY rp n ev =
     (let n2 = update_status (status (event_node ev))
                 (update_info (name (event_node ev)) (start_time (event_node ev))
                    (create_time (event_node ev)) n)
      in case matched_flow gsf n ev of
           None \<Rightarrow> n2
         | Some flow \<Rightarrow>
             snd (should_relaunch MAX_MEMORY rp (set_exit_reason (exit_reason (event_node ev)) n2) flow))"

definition relaunch_verdict :: "state_flow_table \<Rightarrow> int \<Rightarrow> bool \<Rightarrow> node \<Rightarrow> node_event \<Rightarrow> bool" where
  "relaunch_verdict gsf MAX_MEMORY rp n ev =
     (case matched_flow gsf n ev of
           None \<Rightarrow> False
         | Some flow \<Rightarrow>
             fst (should_relaunch MAX_MEMORY rp (set_exit_reason (exit_reason (event_node ev))
               (update_status (status (event_node ev))
                 (update_info (name (event_node ev)) (start_time (event_node ev))
                    (create_time (event_node ev)) n))) flow))"

definition callbacks_of_event ::
  "state_flow_table \<Rightarrow> node \<Rightarrow> node_event \<Rightarrow> nat list \<Rightarrow> callback_call list" where
  "callbacks_of_event gsf n ev cbs =
     (case matched_flow gsf n ev of
        None \<Rightarrow> []
      | Some flow \<Rightarrow>
          (case dispatch_rule_spec (from_status flow) (to_status flow) of
             None \<Rightarrow> []
           | Some meth \<Rightarrow> map (\<lambda>cb. (cb, meth, type' (event_node ev), id' (event_node ev))) cbs))"

text \<open>The node a call was made for, and the key an event or a listed node addresses.\<close>

definition call_key :: "callback_call \<Rightarrow> node_type \<times> int" where
  "call_key c = (fst (snd (snd c)), snd (snd (snd c)))"

definition node_key :: "node \<Rightarrow> node_type \<times> int" where
  "node_key n = (type' n, id' n)"

text \<open>The bound of invariant (I2), for one node and for the whole index.\<close>

definition within_budget :: "node \<Rightarrow> bool" where
  "within_budget n = (relaunch_count n \<le> max_relaunch_count n + 1)"

definition relaunch_count_bounded :: "job_nodes_dict \<Rightarrow> bool" where
  "relaunch_count_bounded jn = list_all (\<lambda>(t, items). list_all (\<lambda>(i, n). within_budget n) items) jn"

text \<open>The one kind of event that takes a counter beyond the bound: it carries the exit
  reason \<^verbatim>\<open>KILLED\<close>, the node it addresses has \<open>relaunch_count > max_relaunch_count\<close>,
  and the policy relaunches (a flow that takes effect and asks for a relaunch, relaunching
  enabled, the node relaunchable). A sequence of events has none when no event is one in
  the state in which the watch loop processes it.\<close>

definition exhausted_KILLED_relaunch :: "state_flow_table \<Rightarrow> node_manager \<Rightarrow> node_event \<Rightarrow> bool" where
  "exhausted_KILLED_relaunch gsf m ev =
     (case get_node (job_nodes m) (type' (event_node ev)) (id' (event_node ev)) of
        Inl e \<Rightarrow> False
      | Inr n \<Rightarrow>
          exit_reason (event_node ev) = KILLED
          \<and> relaunch_count n > max_relaunch_count n
          \<and> relaunch_pod m \<and> relaunchable n
          \<and> (case matched_flow gsf n ev of None \<Rightarrow> False | Some flow \<Rightarrow> flow_should_relaunch flow))"

fun no_exhausted_KILLED_relaunch ::
  "state_flow_table \<Rightarrow> int \<Rightarrow> node_manager \<Rightarrow> node_event list \<Rightarrow> bool" where
  "no_exhausted_KILLED_relaunch gsf MAX_MEMORY m [] = True"
| "no_exhausted_KILLED_relaunch gsf MAX_MEMORY m (ev # events) =
     (\<not> exhausted_KILLED_relaunch gsf m ev
      \<and> no_exhausted_KILLED_relaunch gsf MAX_MEMORY (watch_step gsf MAX_MEMORY m ev) events)"

text \<open>The test and the assignments of the loop of \<^verbatim>\<open>remove_training_nodes\<close>.\<close>

definition removable :: "node \<Rightarrow> bool" where
  "removable n = (status n \<in> set [RUNNING, PENDING] \<and> \<not> is_released n)"

definition mark_removed :: "node \<Rightarrow> node" where
  "mark_removed n = n\<lparr>critical := False, relaunchable := False, is_released := True, status := DELETED\<rparr>"

section \<open>Lemmas on the node index\<close>

lemma map_entry_triv: "map_of xs k = Some v \<Longrightarrow> f v = v \<Longrightarrow> AList.map_entry k f xs = xs"
  by (induction xs) (auto split: if_splits)

lemma get_node_put_node_same:
  "get_node jn t i = Inr n0 \<Longrightarrow> get_node (put_node t i n jn) t i = Inr n"
  by (auto simp: get_node_def put_node_def map_of_map_entry split: option.splits)

lemma get_node_put_node_other:
  "(t', i') \<noteq> (t, i) \<Longrightarrow> get_node (put_node t' i' n jn) t i = get_node jn t i"
  by (auto simp: get_node_def put_node_def map_of_map_entry split: option.splits)

lemma put_node_triv: "get_node jn t i = Inr n \<Longrightarrow> put_node t i n jn = jn"
  unfolding get_node_def put_node_def
  by (auto split: option.splits intro!: map_entry_triv)

lemma list_all_map_entry:
  "list_all P xs \<Longrightarrow> (\<And>v. (k, v) \<in> set xs \<Longrightarrow> P (k, v) \<Longrightarrow> P (k, f v)) \<Longrightarrow> list_all P (AList.map_entry k f xs)"
  by (induction xs) (auto split: if_splits)

lemma map_of_map_values:
  "map_of (map (\<lambda>(i, n). (i, f n)) items) i = map_option f (map_of items i)"
  by (induction items) auto

lemma map_of_empty_lists: "map_of (map (\<lambda>k. (k, [])) ks) t = Some ids \<Longrightarrow> ids = []"
  by (induction ks) (auto split: if_splits)

section \<open>Lemmas on event processing\<close>

lemma process_event_Inl:
  "get_node (job_nodes m) (type' (event_node ev)) (id' (event_node ev)) = Inl e
   \<Longrightarrow> process_event gsf MM m ev = Inl e"
  by (simp add: process_event_def)

lemma process_event_Inr:
  assumes "get_node (job_nodes m) (type' (event_node ev)) (id' (event_node ev)) = Inr n"
  shows "process_event gsf MM m ev =
     Inr (m\<lparr>job_nodes := put_node (type' (event_node ev)) (id' (event_node ev))
                            (node_after_event gsf MM (relaunch_pod m) n ev) (job_nodes m),
            fired := fired m @ callbacks_of_event gsf n ev (node_event_callbacks m),
            pending_relaunch_count :=
              (if relaunch_verdict gsf MM (relaunch_pod m) n ev \<and> wait_pending_relaunch m
               then pending_relaunch_count m + 1 else pending_relaunch_count m)\<rparr>)"
  using assms
  by (auto simp: process_event_def Let_def matched_flow_def node_after_event_def relaunch_verdict_def
      callbacks_of_event_def process_node_events_def dispatch_rule_spec_def fire_def
      update_status_def update_info_def
      split: option.splits prod.splits)

lemma should_relaunch_keeps:
  "status (snd (should_relaunch MM rp n flow)) = status n"
  "name (snd (should_relaunch MM rp n flow)) = name n"
  "start_time (snd (should_relaunch MM rp n flow)) = start_time n"
  "create_time (snd (should_relaunch MM rp n flow)) = create_time n"
  "max_relaunch_count (snd (should_relaunch MM rp n flow)) = max_relaunch_count n"
  "is_released (snd (should_relaunch MM rp n flow)) = is_released n"
  by (simp_all add: should_relaunch_def inc_relaunch_count_def Let_def)

lemma node_after_event_refreshed:
  "status (node_after_event gsf MM rp n ev) = status (event_node ev)"
  "name (node_after_event gsf MM rp n ev) = name (event_node ev)"
  "start_time (node_after_event gsf MM rp n ev) = start_time (event_node ev)"
  "create_time (node_after_event gsf MM rp n ev) = create_time (event_node ev)"
  by (simp_all add: node_after_event_def Let_def should_relaunch_keeps set_exit_reason_def
      update_status_def update_info_def split: option.splits)

lemma node_after_event_unmatched:
  assumes "matched_flow gsf n ev = None"
    and "status n = status (event_node ev)" and "name n = name (event_node ev)"
    and "start_time n = start_time (event_node ev)"
    and "create_time n = create_time (event_node ev)"
  shows "node_after_event gsf MM rp n ev = n"
  using assms by (simp add: node_after_event_def update_status_def update_info_def)

lemma callbacks_of_event_keys:
  "c \<in> set (callbacks_of_event gsf n ev cbs) \<Longrightarrow> call_key c = node_key (event_node ev)"
  by (auto simp: callbacks_of_event_def call_key_def node_key_def split: option.splits)

lemma process_event_frame:
  assumes "process_event gsf MM m ev = Inr m'"
  shows "(\<forall>t i. (t, i) \<noteq> node_key (event_node ev) \<longrightarrow> get_node (job_nodes m') t i = get_node (job_nodes m) t i)
       \<and> (\<exists>cs. fired m' = fired m @ cs \<and> (\<forall>c \<in> set cs. call_key c = node_key (event_node ev)))"
proof -
  let ?t = "type' (event_node ev)" and ?i = "id' (event_node ev)"
  obtain n where n: "get_node (job_nodes m) ?t ?i = Inr n"
    using assms by (cases "get_node (job_nodes m) ?t ?i") (simp_all add: process_event_Inl)
  from assms process_event_Inr [OF n, of gsf MM]
  have jn: "job_nodes m' = put_node ?t ?i (node_after_event gsf MM (relaunch_pod m) n ev) (job_nodes m)"
    and fr: "fired m' = fired m @ callbacks_of_event gsf n ev (node_event_callbacks m)"
    by auto
  show ?thesis
    unfolding jn fr using callbacks_of_event_keys
    by (auto simp: node_key_def get_node_put_node_other)
qed

text \<open>Whatever the table, the node ends with the status the event carried.\<close>

lemma process_event_stores_event_status:
  assumes "process_event gsf MM m ev = Inr m'"
  shows "map_sum id status (get_node (job_nodes m') (type' (event_node ev)) (id' (event_node ev)))
         = Inr (status (event_node ev))"
proof -
  let ?t = "type' (event_node ev)" and ?i = "id' (event_node ev)"
  obtain n where n: "get_node (job_nodes m) ?t ?i = Inr n"
    using assms by (cases "get_node (job_nodes m) ?t ?i") (simp_all add: process_event_Inl)
  from assms process_event_Inr [OF n, of gsf MM]
  have "job_nodes m' = put_node ?t ?i (node_after_event gsf MM (relaunch_pod m) n ev) (job_nodes m)"
    by auto
  then show ?thesis
    by (simp add: get_node_put_node_same [OF n] node_after_event_refreshed)
qed

text \<open>Where the table has no entry from the status of the event to itself, a second
  processing of the event changes nothing.\<close>

lemma process_event_twice_no_self_flow:
  assumes diag: "gsf (status (event_node ev)) (event_type ev) (status (event_node ev)) = None"
    and first: "process_event gsf MM m ev = Inr m1"
  shows "process_event gsf MM m1 ev = Inr m1"
proof -
  let ?t = "type' (event_node ev)" and ?i = "id' (event_node ev)"
  obtain n where n: "get_node (job_nodes m) ?t ?i = Inr n"
    using first by (cases "get_node (job_nodes m) ?t ?i") (simp_all add: process_event_Inl)
  let ?n1 = "node_after_event gsf MM (relaunch_pod m) n ev"
  have m1: "job_nodes m1 = put_node ?t ?i ?n1 (job_nodes m)"
    using first process_event_Inr [OF n, of gsf MM] by auto
  have n1: "get_node (job_nodes m1) ?t ?i = Inr ?n1"
    unfolding m1 by (rule get_node_put_node_same [OF n])
  have unm: "matched_flow gsf ?n1 ev = None"
    by (simp add: matched_flow_def node_after_event_refreshed diag)
  have same: "node_after_event gsf MM (relaunch_pod m1) ?n1 ev = ?n1"
    by (rule node_after_event_unmatched [OF unm]) (simp_all add: node_after_event_refreshed)
  show ?thesis
    using process_event_Inr [OF n1, of gsf MM]
    by (simp add: same put_node_triv [OF n1] callbacks_of_event_def relaunch_verdict_def unm)
qed

lemma process_events_twice_no_self_flow:
  assumes "gsf (status (event_node ev)) (event_type ev) (status (event_node ev)) = None"
  shows "process_events gsf MM m [ev, ev] = process_events gsf MM m [ev]"
proof (cases "process_event gsf MM m ev")
  case (Inl e)
  then show ?thesis by (simp add: process_events_def watch_step_def)
next
  case (Inr m1)
  from process_event_twice_no_self_flow [OF assms Inr] Inr
  show ?thesis by (simp add: process_events_def watch_step_def)
qed

section \<open>Lemmas on the relaunch budget\<close>

lemma relaunch_count_bounded_put_node:
  "relaunch_count_bounded jn \<Longrightarrow> within_budget n \<Longrightarrow> relaunch_count_bounded (put_node t i n jn)"
  unfolding relaunch_count_bounded_def put_node_def
  by (rule list_all_map_entry) (auto intro: list_all_map_entry)

lemma relaunch_count_bounded_get_node:
  "relaunch_count_bounded jn \<Longrightarrow> get_node jn t i = Inr n \<Longrightarrow> within_budget n"
  unfolding relaunch_count_bounded_def get_node_def
  by (fastforce split: option.splits dest!: map_of_SomeD simp: list_all_iff)

lemma should_relaunch_within_budget:
  "within_budget n \<Longrightarrow> exit_reason n \<noteq> KILLED \<Longrightarrow> within_budget (snd (should_relaunch MM rp n flow))"
  by (auto simp: within_budget_def should_relaunch_def inc_relaunch_count_def Let_def)

lemma node_after_event_within_budget:
  "within_budget n \<Longrightarrow> exit_reason (event_node ev) \<noteq> KILLED
   \<Longrightarrow> within_budget (node_after_event gsf MM rp n ev)"
proof -
  assume n: "within_budget n" and k: "exit_reason (event_node ev) \<noteq> KILLED"
  let ?n2 = "update_status (status (event_node ev))
               (update_info (name (event_node ev)) (start_time (event_node ev))
                  (create_time (event_node ev)) n)"
  let ?n3 = "set_exit_reason (exit_reason (event_node ev)) ?n2"
  have n2: "within_budget ?n2"
    using n by (simp add: within_budget_def update_status_def update_info_def)
  have n3: "within_budget ?n3" "exit_reason ?n3 \<noteq> KILLED"
    using n k by (simp_all add: within_budget_def set_exit_reason_def update_status_def update_info_def)
  show ?thesis
    using n2 should_relaunch_within_budget [OF n3]
    by (simp add: node_after_event_def Let_def split: option.splits)
qed

lemma watch_step_within_budget:
  assumes "relaunch_count_bounded (job_nodes m)" and "exit_reason (event_node ev) \<noteq> KILLED"
  shows "relaunch_count_bounded (job_nodes (watch_step gsf MM m ev))"
proof (cases "get_node (job_nodes m) (type' (event_node ev)) (id' (event_node ev))")
  case (Inl e)
  then show ?thesis using assms by (simp add: watch_step_def process_event_Inl)
next
  case (Inr n)
  have "within_budget (node_after_event gsf MM (relaunch_pod m) n ev)"
    using relaunch_count_bounded_get_node [OF assms(1) Inr] assms(2)
    by (rule node_after_event_within_budget)
  then show ?thesis
    using assms(1) by (simp add: watch_step_def process_event_Inr [OF Inr] relaunch_count_bounded_put_node)
qed

text \<open>The same with \<^verbatim>\<open>KILLED\<close>, as long as the event is not a relaunch of a node
  beyond its budget; such a relaunch breaks the bound.\<close>

lemma should_relaunch_within_budget_KILLED:
  "within_budget n \<Longrightarrow> exit_reason n = KILLED
   \<Longrightarrow> \<not> (relaunch_count n > max_relaunch_count n \<and> rp \<and> relaunchable n \<and> flow_should_relaunch flow)
   \<Longrightarrow> within_budget (snd (should_relaunch MM rp n flow))"
  by (auto simp: within_budget_def should_relaunch_def inc_relaunch_count_def Let_def)

lemma node_after_event_within_budget_general:
  assumes n: "within_budget n"
    and ok: "\<not> (exit_reason (event_node ev) = KILLED \<and> relaunch_count n > max_relaunch_count n
               \<and> rp \<and> relaunchable n
               \<and> (case matched_flow gsf n ev of None \<Rightarrow> False | Some flow \<Rightarrow> flow_should_relaunch flow))"
  shows "within_budget (node_after_event gsf MM rp n ev)"
proof (cases "exit_reason (event_node ev) = KILLED")
  case False
  with n show ?thesis by (rule node_after_event_within_budget)
next
  case True
  let ?n2 = "update_status (status (event_node ev))
               (update_info (name (event_node ev)) (start_time (event_node ev))
                  (create_time (event_node ev)) n)"
  let ?n3 = "set_exit_reason (exit_reason (event_node ev)) ?n2"
  have n2: "within_budget ?n2"
    using n by (simp add: within_budget_def update_status_def update_info_def)
  have n3: "within_budget ?n3" "exit_reason ?n3 = KILLED"
    "relaunch_count ?n3 = relaunch_count n" "max_relaunch_count ?n3 = max_relaunch_count n"
    "relaunchable ?n3 = relaunchable n"
    using n True by (simp_all add: within_budget_def set_exit_reason_def update_status_def update_info_def)
  show ?thesis
  proof (cases "matched_flow gsf n ev")
    case None
    with n2 show ?thesis by (simp add: node_after_event_def Let_def)
  next
    case (Some flow)
    have "\<not> (relaunch_count ?n3 > max_relaunch_count ?n3 \<and> rp \<and> relaunchable ?n3
                          \<and> flow_should_relaunch flow)"
      unfolding n3(3) n3(4) n3(5) using ok True Some by simp
    from should_relaunch_within_budget_KILLED [OF n3(1) n3(2) this] Some
    show ?thesis by (simp add: node_after_event_def Let_def)
  qed
qed

lemma watch_step_within_budget_general:
  assumes "relaunch_count_bounded (job_nodes m)" and "\<not> exhausted_KILLED_relaunch gsf m ev"
  shows "relaunch_count_bounded (job_nodes (watch_step gsf MM m ev))"
proof (cases "get_node (job_nodes m) (type' (event_node ev)) (id' (event_node ev))")
  case (Inl e)
  then show ?thesis using assms by (simp add: watch_step_def process_event_Inl)
next
  case (Inr n)
  have "within_budget (node_after_event gsf MM (relaunch_pod m) n ev)"
    using relaunch_count_bounded_get_node [OF assms(1) Inr] assms(2) Inr
    by (intro node_after_event_within_budget_general) (simp_all add: exhausted_KILLED_relaunch_def)
  then show ?thesis
    using assms(1) by (simp add: watch_step_def process_event_Inr [OF Inr] relaunch_count_bounded_put_node)
qed

lemma exhausted_KILLED_relaunch_breaks_bound:
  assumes "exhausted_KILLED_relaunch gsf m ev"
  shows "\<not> relaunch_count_bounded (job_nodes (watch_step gsf MM m ev))"
proof
  let ?t = "type' (event_node ev)" and ?i = "id' (event_node ev)"
  assume b: "relaunch_count_bounded (job_nodes (watch_step gsf MM m ev))"
  from assms obtain n flow where n: "get_node (job_nodes m) ?t ?i = Inr n"
    and k: "exit_reason (event_node ev) = KILLED" "relaunch_count n > max_relaunch_count n"
      "relaunch_pod m" "relaunchable n"
    and f: "matched_flow gsf n ev = Some flow" "flow_should_relaunch flow"
    by (auto simp: exhausted_KILLED_relaunch_def split: sum.splits option.splits)
  let ?n' = "node_after_event gsf MM (relaunch_pod m) n ev"
  have "get_node (job_nodes (watch_step gsf MM m ev)) ?t ?i = Inr ?n'"
    by (simp add: watch_step_def process_event_Inr [OF n] get_node_put_node_same [OF n])
  from relaunch_count_bounded_get_node [OF b this] have "within_budget ?n'" .
  moreover have "relaunch_count ?n' = relaunch_count n + 1" "max_relaunch_count ?n' = max_relaunch_count n"
    using k f
    by (simp_all add: node_after_event_def should_relaunch_def inc_relaunch_count_def Let_def
        set_exit_reason_def update_status_def update_info_def)
  ultimately show False using k(2) by (simp add: within_budget_def)
qed

section \<open>Lemmas on reconciliation and removal\<close>

lemma ingest_list_frame:
  assumes "ingest_list gsf MM nodes ep m = Inr (ep', m')"
  shows "(\<forall>t i. (t, i) \<notin> node_key ` set nodes \<longrightarrow> get_node (job_nodes m') t i = get_node (job_nodes m) t i)
       \<and> (\<exists>cs. fired m' = fired m @ cs \<and> (\<forall>c \<in> set cs. call_key c \<in> node_key ` set nodes))
       \<and> (\<forall>t ids'. map_of ep' t = Some ids' \<longrightarrow>
             (\<exists>ids. map_of ep t = Some ids \<and> set ids' = set ids \<union> {id' x |x. x \<in> set nodes \<and> type' x = t}))"
  using assms
proof (induction nodes arbitrary: ep m)
  case Nil
  then show ?case by simp
next
  case (Cons x nodes)
  let ?ev = "\<lparr>event_type = (if status x = DELETED then DELETED_event else MODIFIED), event_node = x\<rparr>"
  let ?ep1 = "AList.map_entry (type' x) (\<lambda>ids. ids @ [id' x]) ep"
  from Cons.prems obtain ids0 m1 where
    ep: "map_of ep (type' x) = Some ids0"
    and pe: "process_event gsf MM m ?ev = Inr m1"
    and rest: "ingest_list gsf MM nodes ?ep1 m1 = Inr (ep', m')"
    by (auto simp: Let_def split: option.splits sum.splits)
  note ih = Cons.IH [OF rest]
  note fr = process_event_frame [OF pe]
  have a: "\<forall>t i. (t, i) \<notin> node_key ` set (x # nodes) \<longrightarrow> get_node (job_nodes m') t i = get_node (job_nodes m) t i"
    using ih fr by auto
  from fr obtain cs1 where cs1: "fired m1 = fired m @ cs1" "\<forall>c \<in> set cs1. call_key c = node_key x"
    by auto
  from ih obtain cs2 where cs2: "fired m' = fired m1 @ cs2" "\<forall>c \<in> set cs2. call_key c \<in> node_key ` set nodes"
    by auto
  have b: "\<exists>cs. fired m' = fired m @ cs \<and> (\<forall>c \<in> set cs. call_key c \<in> node_key ` set (x # nodes))"
    using cs1 cs2 by (intro exI [of _ "cs1 @ cs2"]) auto
  have c: "\<forall>t ids'. map_of ep' t = Some ids' \<longrightarrow>
             (\<exists>ids. map_of ep t = Some ids \<and> set ids' = set ids \<union> {id' y |y. y \<in> set (x # nodes) \<and> type' y = t})"
  proof (intro allI impI)
    fix t ids' assume "map_of ep' t = Some ids'"
    with ih obtain ids1 where ids1: "map_of ?ep1 t = Some ids1"
      "set ids' = set ids1 \<union> {id' y |y. y \<in> set nodes \<and> type' y = t}" by blast
    show "\<exists>ids. map_of ep t = Some ids \<and> set ids' = set ids \<union> {id' y |y. y \<in> set (x # nodes) \<and> type' y = t}"
    proof (cases "t = type' x")
      case True
      with ids1 ep have "ids1 = ids0 @ [id' x]" by (simp add: map_of_map_entry)
      with ids1 ep True show ?thesis by auto
    next
      case False
      with ids1 have "map_of ep t = Some ids1" by (simp add: map_of_map_entry)
      with ids1 False show ?thesis by auto
    qed
  qed
  from a b c show ?case by blast
qed

lemma release_missing_Cons:
  assumes "release_missing ep t ((j, k) # items) = Inr items'"
  shows "\<exists>k' rest. items' = (j, k') # rest \<and> release_missing ep t items = Inr rest \<and>
           (status k \<noteq> INITIAL \<and> \<not> is_released k \<longrightarrow>
              (\<exists>ids. map_of ep t = Some ids \<and> (j \<notin> set ids \<longrightarrow> k' = k\<lparr>is_released := True\<rparr>)
                     \<and> (j \<in> set ids \<longrightarrow> k' = k))) \<and>
           (\<not> (status k \<noteq> INITIAL \<and> \<not> is_released k) \<longrightarrow> k' = k)"
proof (cases "status k \<noteq> INITIAL \<and> \<not> is_released k")
  case True
  with assms obtain ids where ids: "map_of ep t = Some ids"
    by (cases "map_of ep t") simp_all
  with assms True obtain rest where rest: "release_missing ep t items = Inr rest"
    by (cases "release_missing ep t items") simp_all
  with assms True ids
  have "items' = (j, if j \<notin> set ids then k\<lparr>is_released := True\<rparr> else k) # rest"
    by simp
  with True ids rest show ?thesis by auto
next
  case False
  with assms obtain rest where rest: "release_missing ep t items = Inr rest"
    by (cases "release_missing ep t items") simp_all
  with assms False have "items' = (j, k) # rest" by auto
  with False rest show ?thesis by blast
qed

lemma release_missing_lookup:
  assumes "release_missing ep t items = Inr items'" and "map_of items i = Some n"
  shows "\<exists>n'. map_of items' i = Some n' \<and>
           (status n \<noteq> INITIAL \<and> \<not> is_released n \<longrightarrow>
              (\<exists>ids. map_of ep t = Some ids \<and> (i \<notin> set ids \<longrightarrow> n' = n\<lparr>is_released := True\<rparr>)
                     \<and> (i \<in> set ids \<longrightarrow> n' = n))) \<and>
           (\<not> (status n \<noteq> INITIAL \<and> \<not> is_released n) \<longrightarrow> n' = n)"
  using assms
proof (induction items arbitrary: items')
  case Nil
  then show ?case by simp
next
  case (Cons x items)
  obtain j k where x: "x = (j, k)" by (cases x)
  from release_missing_Cons [OF Cons.prems(1) [unfolded x]] obtain k' rest where
    items': "items' = (j, k') # rest" and rest: "release_missing ep t items = Inr rest"
    and k': "status k \<noteq> INITIAL \<and> \<not> is_released k \<longrightarrow>
              (\<exists>ids. map_of ep t = Some ids \<and> (j \<notin> set ids \<longrightarrow> k' = k\<lparr>is_released := True\<rparr>)
                     \<and> (j \<in> set ids \<longrightarrow> k' = k))"
      "\<not> (status k \<noteq> INITIAL \<and> \<not> is_released k) \<longrightarrow> k' = k"
    by blast
  show ?case
  proof (cases "j = i")
    case True
    with Cons.prems(2) x have "k = n" by simp
    with True k' have
      "status n \<noteq> INITIAL \<and> \<not> is_released n \<longrightarrow>
              (\<exists>ids. map_of ep t = Some ids \<and> (i \<notin> set ids \<longrightarrow> k' = n\<lparr>is_released := True\<rparr>)
                     \<and> (i \<in> set ids \<longrightarrow> k' = n))"
      "\<not> (status n \<noteq> INITIAL \<and> \<not> is_released n) \<longrightarrow> k' = n"
      by simp_all
    moreover have "map_of items' i = Some k'" using True items' by simp
    ultimately show ?thesis by blast
  next
    case False
    with Cons.prems(2) x have "map_of items i = Some n" by simp
    from Cons.IH [OF rest this] obtain n' where
      n': "map_of rest i = Some n'"
      "status n \<noteq> INITIAL \<and> \<not> is_released n \<longrightarrow>
              (\<exists>ids. map_of ep t = Some ids \<and> (i \<notin> set ids \<longrightarrow> n' = n\<lparr>is_released := True\<rparr>)
                     \<and> (i \<in> set ids \<longrightarrow> n' = n))"
      "\<not> (status n \<noteq> INITIAL \<and> \<not> is_released n) \<longrightarrow> n' = n"
      by blast
    moreover have "map_of items' i = Some n'" using False items' n'(1) by simp
    ultimately show ?thesis by blast
  qed
qed

lemma release_all_missing_lookup:
  assumes "release_all_missing ep jn = Inr jn'" and "map_of jn t = Some items"
  shows "\<exists>items'. release_missing ep t items = Inr items' \<and> map_of jn' t = Some items'"
  using assms
  by (induction ep jn arbitrary: jn' rule: release_all_missing.induct)
     (auto split: if_splits option.splits sum.splits)

lemma remove_loop_eq:
  "remove_loop items acc =
     (map (\<lambda>(i, n). (i, if removable n then mark_removed n else n)) items,
      acc @ map name (filter removable (map snd items)))"
  by (induction items acc rule: remove_loop.induct)
     (simp_all add: removable_def mark_removed_def)

lemmas scenario_defs = process_event_def get_node_def put_node_def manager0_def manager1_def
  node0_def spec_state_flow_def update_info_def update_status_def set_exit_reason_def
  inc_relaunch_count_def should_relaunch_def process_node_events_def fire_def Let_def
  watch_step_def process_events_def stop_def process_list_nodes_def
  remove_training_nodes_def remove_training_nodes_body_def manager6_def

section \<open>The relaunch policy and the callback dispatch\<close>

text \<open>
  Claim C2. \<^verbatim>\<open>_should_relaunch\<close> is the five-step decision procedure of the
  specification, for every node, state flow, memory ceiling and relaunch switch: false
  unless the flow asks for a relaunch, relaunching is enabled and the node is
  relaunchable; false on \<^verbatim>\<open>FATAL_ERROR\<close>; on \<^verbatim>\<open>OOM\<close> false above the memory
  ceiling or with the budget used up, otherwise true with \<^verbatim>\<open>is_recovered_oom\<close> set;
  for another reason that is not \<^verbatim>\<open>KILLED\<close>, false exactly when the count exceeds
  the maximum; true on \<^verbatim>\<open>KILLED\<close>. The counter grows by one when the verdict is true
  and stays as it is when the verdict is false.
\<close>

theorem should_relaunch_refines_spec:
  "should_relaunch MAX_MEMORY rp n flow = relaunch_policy_spec MAX_MEMORY rp n flow
   \<and> relaunch_count (snd (should_relaunch MAX_MEMORY rp n flow))
       = relaunch_count n + (if fst (should_relaunch MAX_MEMORY rp n flow) then 1 else 0)"
  by (simp add: should_relaunch_def relaunch_policy_spec_def inc_relaunch_count_def Let_def)

text \<open>Scenario 1 of the specification: an \<^verbatim>\<open>OOM\<close> within the budget.\<close>

theorem should_relaunch_refines_spec_witness:
  "should_relaunch 65536 True
     (node0\<lparr>exit_reason := OOM, relaunch_count := 1, max_relaunch_count := 3\<rparr>)
     \<lparr>from_status = RUNNING, to_status = FAILED, flow_should_relaunch = True\<rparr>
   = (True, node0\<lparr>exit_reason := OOM, relaunch_count := 2, max_relaunch_count := 3,
                   is_recovered_oom := True\<rparr>)"
  using should_relaunch_refines_spec
    [of 65536 True "node0\<lparr>exit_reason := OOM, relaunch_count := 1, max_relaunch_count := 3\<rparr>"
        "\<lparr>from_status = RUNNING, to_status = FAILED, flow_should_relaunch = True\<rparr>"]
  by (simp add: relaunch_policy_spec_def node0_def)

text \<open>
  Claim C7. The callbacks are dispatched by the target of the matched flow: to
  \<^verbatim>\<open>RUNNING\<close> calls \<^verbatim>\<open>on_node_started\<close>, to \<^verbatim>\<open>SUCCEEDED\<close> calls
  \<^verbatim>\<open>on_node_succeeded\<close>, to \<^verbatim>\<open>FAILED\<close> calls \<^verbatim>\<open>on_node_failed\<close>, to
  \<^verbatim>\<open>DELETED\<close> calls \<^verbatim>\<open>on_node_deleted\<close> only when the flow starts neither from
  \<^verbatim>\<open>FAILED\<close> nor from \<^verbatim>\<open>SUCCEEDED\<close>; the method is called once on every registered
  subscriber, in registration order, and nothing else of the manager changes.
\<close>

theorem process_node_events_dispatch:
  "process_node_events flow k m =
     m\<lparr>fired := fired m @
        (case dispatch_rule_spec (from_status flow) (to_status flow) of
           None \<Rightarrow> []
         | Some meth \<Rightarrow> map (\<lambda>cb. (cb, meth, fst k, snd k)) (node_event_callbacks m))\<rparr>"
  by (simp add: process_node_events_def dispatch_rule_spec_def fire_def)

text \<open>A third subscriber registers; a deletion from \<^verbatim>\<open>RUNNING\<close> reaches the three in
  the order of registration, a deletion from \<^verbatim>\<open>FAILED\<close> reaches nobody.\<close>

theorem process_node_events_dispatch_witness:
  "fired (process_node_events
            \<lparr>from_status = RUNNING, to_status = DELETED, flow_should_relaunch = True\<rparr>
            (WORKER, 0) (add_node_event_callback 2 manager0))
     = [(0, on_node_deleted, WORKER, 0), (1, on_node_deleted, WORKER, 0),
        (2, on_node_deleted, WORKER, 0)]
   \<and> fired (process_node_events
            \<lparr>from_status = FAILED, to_status = DELETED, flow_should_relaunch = False\<rparr>
            (WORKER, 0) manager0) = []"
  using process_node_events_dispatch
    [of "\<lparr>from_status = RUNNING, to_status = DELETED, flow_should_relaunch = True\<rparr>"
        "(WORKER, 0)" "add_node_event_callback 2 manager0"]
    process_node_events_dispatch
    [of "\<lparr>from_status = FAILED, to_status = DELETED, flow_should_relaunch = False\<rparr>"
        "(WORKER, 0)" manager0]
  by (simp add: dispatch_rule_spec_def manager0_def add_node_event_callback_def)

section \<open>Stopping\<close>

lemma alive_critical_nodes_stop: "alive_critical_nodes (stop m) = []"
  by (simp add: alive_critical_nodes_def stop_def split_def o_def)

lemma alive_critical_nodes_empty_iff:
  "alive_critical_nodes m = [] \<longleftrightarrow>
     (\<forall>t items i n. (t, items) \<in> set (job_nodes m) \<longrightarrow> (i, n) \<in> set items \<longrightarrow> critical n
        \<longrightarrow> status n \<notin> {INITIAL, PENDING, RUNNING})"
  by (fastforce simp: alive_critical_nodes_def filter_empty_conv)

lemma get_node_stop:
  "get_node (job_nodes (stop m)) t i =
     map_sum id (\<lambda>n. n\<lparr>critical := False, is_released := True\<rparr>) (get_node (job_nodes m) t i)"
  by (simp add: get_node_def stop_def map_of_map_values split: option.splits)

lemma stop_not_critical:
  "(t, items) \<in> set (job_nodes (stop m)) \<Longrightarrow> (i, n) \<in> set items \<Longrightarrow> \<not> critical n"
  by (auto simp: stop_def)

text \<open>
  Claim C10. After \<^verbatim>\<open>stop()\<close>, \<^verbatim>\<open>all_critical_node_completed()\<close> returns true,
  because \<^verbatim>\<open>stop()\<close> sets \<^verbatim>\<open>critical\<close> to false on every node of the index and
  the predicate reports completion if and only if no critical node is \<^verbatim>\<open>INITIAL\<close>,
  \<^verbatim>\<open>PENDING\<close> or \<^verbatim>\<open>RUNNING\<close>. In turn: the predicate holds after the stop; the
  stop keeps every node of the index under its key, with \<^verbatim>\<open>critical\<close> false and
  \<^verbatim>\<open>is_released\<close> true and nothing else changed; no node of the stopped index is
  critical; the roles of the index are the same; and, for every manager, the predicate
  holds exactly when no critical node of the index is in one of the three states.
\<close>

theorem all_critical_node_completed_after_stop:
  "all_critical_node_completed (stop m)
   \<and> (\<forall>t i. get_node (job_nodes (stop m)) t i =
          map_sum id (\<lambda>n. n\<lparr>critical := False, is_released := True\<rparr>) (get_node (job_nodes m) t i))
   \<and> (\<forall>t items i n. (t, items) \<in> set (job_nodes (stop m)) \<longrightarrow> (i, n) \<in> set items
          \<longrightarrow> \<not> critical n)
   \<and> map fst (job_nodes (stop m)) = map fst (job_nodes m)
   \<and> (all_critical_node_completed m2 \<longleftrightarrow>
        (\<forall>t items i n. (t, items) \<in> set (job_nodes m2) \<longrightarrow> (i, n) \<in> set items
           \<longrightarrow> critical n \<longrightarrow> status n \<notin> {INITIAL, PENDING, RUNNING}))"
proof -
  have a: "all_critical_node_completed (stop m)"
    by (simp add: all_critical_node_completed_def alive_critical_nodes_stop)
  have d: "map fst (job_nodes (stop m)) = map fst (job_nodes m)"
    by (simp add: stop_def split_def o_def)
  have e: "all_critical_node_completed m2 \<longleftrightarrow>
        (\<forall>t items i n. (t, items) \<in> set (job_nodes m2) \<longrightarrow> (i, n) \<in> set items
           \<longrightarrow> critical n \<longrightarrow> status n \<notin> {INITIAL, PENDING, RUNNING})"
    unfolding all_critical_node_completed_def by (rule alive_critical_nodes_empty_iff)
  from a d e get_node_stop stop_not_critical show ?thesis by blast
qed

text \<open>Before the stop, the critical running worker keeps the job alive; after it, the
  worker is still in the index, still \<^verbatim>\<open>RUNNING\<close>, and no longer critical.\<close>

theorem all_critical_node_completed_after_stop_witness:
  "\<not> all_critical_node_completed manager0
   \<and> map_sum id (\<lambda>n. (critical n, status n)) (get_node (job_nodes manager0) WORKER 0)
       = Inr (True, RUNNING)
   \<and> all_critical_node_completed (stop manager0)
   \<and> map_sum id (\<lambda>n. (critical n, status n)) (get_node (job_nodes (stop manager0)) WORKER 0)
       = Inr (False, RUNNING)
   \<and> map fst (job_nodes (stop manager0)) = [WORKER, PS, CHIEF]"
  using all_critical_node_completed_after_stop [of manager0 manager0]
  by (simp add: all_critical_node_completed_def alive_critical_nodes_def scenario_defs)

section \<open>The status of a node under event processing\<close>

text \<open>
  Claim C1. \<^verbatim>\<open>SUCCEEDED\<close> is terminal and absorbing: an event for a node whose status
  is \<^verbatim>\<open>SUCCEEDED\<close> leaves the status \<^verbatim>\<open>SUCCEEDED\<close> and fires no callback. The
  code does not keep the first half. For the chief of scenario 5 and the spurious
  \<^verbatim>\<open>MODIFIED\<close> event with status \<^verbatim>\<open>RUNNING\<close>, the table has no entry and no
  callback is fired, but \<^verbatim>\<open>update_status\<close> has already run when
  \<^verbatim>\<open>_process_event\<close> returns: the chief is \<^verbatim>\<open>RUNNING\<close> afterwards.
\<close>

theorem succeeded_status_overwritten:
  "map_sum id status (get_node (job_nodes manager0) CHIEF 0) = Inr SUCCEEDED
   \<and> spec_state_flow SUCCEEDED MODIFIED RUNNING = None
   \<and> (case process_event spec_state_flow 65536 manager0 chief_running_event of
         Inl e \<Rightarrow> False
       | Inr m' \<Rightarrow> map_sum id status (get_node (job_nodes m') CHIEF 0) = Inr RUNNING
                  \<and> fired m' = [])"
  by (simp add: scenario_defs chief_running_event_def)

text \<open>
  Claim C8. When the lookup of the state flow returns none, the event is dropped and the
  record of the node stays as it was. The code does not keep it. Worker 0 is
  \<^verbatim>\<open>RUNNING\<close>; the event is \<^verbatim>\<open>MODIFIED\<close> with status \<^verbatim>\<open>PENDING\<close> and the
  name and times the node already has; the table has no entry; the node has the status
  \<^verbatim>\<open>PENDING\<close> afterwards.
\<close>

theorem unmatched_event_changes_status:
  "spec_state_flow RUNNING MODIFIED PENDING = None
   \<and> get_node (job_nodes manager0) WORKER 0 = Inr node0
   \<and> (case process_event spec_state_flow 65536 manager0 worker_pending_event of
         Inl e \<Rightarrow> False
       | Inr m' \<Rightarrow> get_node (job_nodes m') WORKER 0 = Inr (node0\<lparr>status := PENDING\<rparr>)
                  \<and> m' \<noteq> manager0)"
  by (simp add: scenario_defs worker_pending_event_def)

text \<open>
  Claim C9. Processing the same event twice leaves the node as processing it once does.
  The code does not keep it. The stored status is the one the event carries, not the
  target of the flow, so the deletion of the pending parameter server, an event that
  carries the phase \<^verbatim>\<open>PENDING\<close>, finds the node \<^verbatim>\<open>PENDING\<close> again: the second
  processing matches the same flow, calls \<^verbatim>\<open>on_node_deleted\<close> again and counts a
  second relaunch. (By \<open>process_events_twice_no_self_flow\<close> a second processing
  changes nothing where the table has no entry from the status of the event to itself.)
\<close>

theorem duplicate_event_relaunches_twice:
  "map_sum id (\<lambda>n. (status n, relaunch_count n))
     (get_node (job_nodes (process_events spec_state_flow 65536 manager0 [ps_deleted_event])) PS 0)
     = Inr (PENDING, 1)
   \<and> map_sum id relaunch_count
     (get_node (job_nodes (process_events spec_state_flow 65536 manager0
        [ps_deleted_event, ps_deleted_event])) PS 0) = Inr 2
   \<and> length (fired (process_events spec_state_flow 65536 manager0 [ps_deleted_event])) = 2
   \<and> length (fired (process_events spec_state_flow 65536 manager0
        [ps_deleted_event, ps_deleted_event])) = 4"
  by (simp add: scenario_defs ps_deleted_event_def)

section \<open>The relaunch budget\<close>

text \<open>
  Claim C3, as the code has it. If every node of the index has
  \<open>relaunch_count \<le> max_relaunch_count + 1\<close>, then so has every node after any
  sequence of processed events, whatever the table and the memory ceiling, provided that
  no event of the sequence relaunches, on the exit reason \<^verbatim>\<open>KILLED\<close>, a node whose
  \<open>relaunch_count\<close> is above its \<open>max_relaunch_count\<close> when the event arrives.
\<close>

theorem relaunch_count_bounded_unless_exhausted_KILLED:
  assumes "relaunch_count_bounded (job_nodes m)"
    and "no_exhausted_KILLED_relaunch gsf MM m events"
  shows "relaunch_count_bounded (job_nodes (process_events gsf MM m events))"
  using assms unfolding process_events_def
  by (induction events arbitrary: m) (simp_all add: watch_step_within_budget_general)

text \<open>Two deletions of the pending parameter server and a failure of worker 0 stay within
  the bound, and so does the killed worker 0 at its limit once relaunching is off; with
  relaunching on, that event is the excluded one.\<close>

theorem relaunch_count_bounded_unless_exhausted_KILLED_witness:
  "relaunch_count_bounded (job_nodes manager0)
   \<and> no_exhausted_KILLED_relaunch spec_state_flow 65536 manager0
        [ps_deleted_event, ps_deleted_event, worker_failed_event UNKNOWN]
   \<and> map_sum id (\<lambda>n. (relaunch_count n, max_relaunch_count n))
        (get_node (job_nodes (process_events spec_state_flow 65536 manager0
           [ps_deleted_event, ps_deleted_event, worker_failed_event UNKNOWN])) PS 0) = Inr (2, 1)
   \<and> relaunch_count_bounded (job_nodes (process_events spec_state_flow 65536 manager0
           [ps_deleted_event, ps_deleted_event, worker_failed_event UNKNOWN]))
   \<and> no_exhausted_KILLED_relaunch spec_state_flow 65536 (stop manager1) [worker_failed_event KILLED]
   \<and> relaunch_count_bounded (job_nodes (process_events spec_state_flow 65536 (stop manager1)
           [worker_failed_event KILLED]))
   \<and> \<not> no_exhausted_KILLED_relaunch spec_state_flow 65536 manager1 [worker_failed_event KILLED]"
  using relaunch_count_bounded_unless_exhausted_KILLED
          [of manager0 spec_state_flow 65536
              "[ps_deleted_event, ps_deleted_event, worker_failed_event UNKNOWN]"]
        relaunch_count_bounded_unless_exhausted_KILLED
          [of "stop manager1" spec_state_flow 65536 "[worker_failed_event KILLED]"]
  by (simp add: scenario_defs worker_failed_event_def ps_deleted_event_def
      relaunch_count_bounded_def within_budget_def exhausted_KILLED_relaunch_def matched_flow_def)

text \<open>Claim C3, as stated, fails: worker 0 has used its budget
  (\<open>relaunch_count = max_relaunch_count + 1\<close>), fails with \<^verbatim>\<open>KILLED\<close> and is
  relaunched and counted once more.\<close>

theorem relaunch_count_unbounded_on_KILLED:
  "relaunch_count_bounded (job_nodes manager1)
   \<and> exhausted_KILLED_relaunch spec_state_flow manager1 (worker_failed_event KILLED)
   \<and> map_sum id relaunch_count
        (get_node (job_nodes (process_events spec_state_flow 65536 manager1
           [worker_failed_event KILLED])) WORKER 0) = Inr 3
   \<and> \<not> relaunch_count_bounded (job_nodes (process_events spec_state_flow 65536 manager1
           [worker_failed_event KILLED]))"
  by (simp add: scenario_defs worker_failed_event_def relaunch_count_bounded_def within_budget_def
      exhausted_KILLED_relaunch_def matched_flow_def)

section \<open>Released nodes\<close>

text \<open>
  Claim C4, as the code has it. Event processing does not read \<^verbatim>\<open>is_released\<close>:
  an event for a released node (every node is one after \<^verbatim>\<open>stop()\<close>) is processed,
  and it fires the callbacks that its state flow selects: none when the table has no
  entry or the flow starts from \<^verbatim>\<open>SUCCEEDED\<close>, otherwise those of the dispatch rule,
  once per subscriber.
\<close>

theorem released_node_callbacks_follow_flow:
  assumes "get_node (job_nodes m) (type' (event_node ev)) (id' (event_node ev)) = Inr n"
    and "is_released n"
  shows "\<exists>m'. process_event gsf MM m ev = Inr m' \<and>
     fired m' = fired m @
       (case gsf (status n) (event_type ev) (status (event_node ev)) of
          None \<Rightarrow> []
        | Some flow \<Rightarrow>
            if from_status flow = SUCCEEDED then []
            else (case dispatch_rule_spec (from_status flow) (to_status flow) of
                    None \<Rightarrow> []
                  | Some meth \<Rightarrow>
                      map (\<lambda>cb. (cb, meth, type' (event_node ev), id' (event_node ev)))
                        (node_event_callbacks m)))"
  by (simp add: process_event_Inr [OF assms(1)] callbacks_of_event_def matched_flow_def split: option.splits)

theorem released_node_callbacks_follow_flow_witness:
  "map_sum id is_released (get_node (job_nodes (stop manager0)) CHIEF 0) = Inr True
   \<and> map_sum id from_status (case_option (Inl ()) Inr (spec_state_flow SUCCEEDED DELETED_event DELETED))
       = Inr SUCCEEDED
   \<and> map_sum id fired (process_event spec_state_flow 65536 (stop manager0) chief_deleted_event)
       = Inr []
   \<and> map_sum id fired (process_event spec_state_flow 65536 (stop manager0) worker_pending_event)
       = Inr []"
  using released_node_callbacks_follow_flow
          [of "stop manager0" chief_deleted_event _ spec_state_flow 65536]
        released_node_callbacks_follow_flow
          [of "stop manager0" worker_pending_event _ spec_state_flow 65536]
  by (simp add: scenario_defs chief_deleted_event_def worker_pending_event_def)

text \<open>Claim C4, as stated, fails: after \<^verbatim>\<open>stop()\<close> the running worker 0 is
  released, and the event of its success calls \<^verbatim>\<open>on_node_succeeded\<close> on both
  subscribers.\<close>

theorem released_node_still_notified:
  "map_sum id is_released (get_node (job_nodes (stop manager0)) WORKER 0) = Inr True
   \<and> map_sum id fired (process_event spec_state_flow 65536 (stop manager0) worker_succeeded_event)
       = Inr [(0, on_node_succeeded, WORKER, 0), (1, on_node_succeeded, WORKER, 0)]"
  by (simp add: scenario_defs worker_succeeded_event_def)

section \<open>Reconciliation\<close>

text \<open>
  Claim C5. When \<^verbatim>\<open>_process_list_nodes\<close> returns, every node of the index whose id
  is absent from the ids the list has for its role and whose status is not
  \<^verbatim>\<open>INITIAL\<close> is released and otherwise as it was (a node that was released
  before stays so), and no callback has been fired for it during the reconciliation.
\<close>

theorem process_list_nodes_releases_missing:
  assumes run: "process_list_nodes gsf MM m nodes = Inr m'"
    and n: "get_node (job_nodes m) t i = Inr n"
    and st: "status n \<noteq> INITIAL"
    and absent: "(t, i) \<notin> node_key ` set nodes"
  shows "get_node (job_nodes m') t i = Inr (n\<lparr>is_released := True\<rparr>)
       \<and> (\<exists>cs. fired m' = fired m @ cs \<and> (\<forall>c \<in> set cs. call_key c \<noteq> (t, i)))"
proof -
  let ?ep0 = "map (\<lambda>node_type. (node_type, [])) (map fst (job_nodes m))"
  from run obtain ep1 m1 jn where
    ing: "ingest_list gsf MM nodes ?ep0 m = Inr (ep1, m1)"
    and rel: "release_all_missing ep1 (job_nodes m1) = Inr jn"
    and m': "m' = m1\<lparr>job_nodes := jn\<rparr>"
    by (auto simp: process_list_nodes_def Let_def split: sum.splits)
  note fr = ingest_list_frame [OF ing]
  from fr absent n have n1: "get_node (job_nodes m1) t i = Inr n" by simp
  then obtain items where items: "map_of (job_nodes m1) t = Some items" "map_of items i = Some n"
    by (auto simp: get_node_def split: option.splits)
  from release_all_missing_lookup [OF rel items(1)] obtain items' where
    items': "release_missing ep1 t items = Inr items'" "map_of jn t = Some items'" by blast
  from release_missing_lookup [OF items'(1) items(2)] obtain n' where
    n': "map_of items' i = Some n'"
      "status n \<noteq> INITIAL \<and> \<not> is_released n \<longrightarrow>
         (\<exists>ids. map_of ep1 t = Some ids \<and> (i \<notin> set ids \<longrightarrow> n' = n\<lparr>is_released := True\<rparr>)
                \<and> (i \<in> set ids \<longrightarrow> n' = n))"
      "\<not> (status n \<noteq> INITIAL \<and> \<not> is_released n) \<longrightarrow> n' = n" by blast
  have "n' = n\<lparr>is_released := True\<rparr>"
  proof (cases "is_released n")
    case True
    with n'(3) show ?thesis by simp
  next
    case False
    with n'(2) st obtain ids where ids: "map_of ep1 t = Some ids"
      "i \<notin> set ids \<longrightarrow> n' = n\<lparr>is_released := True\<rparr>" by blast
    from fr ids(1) obtain ids0 where ids0: "map_of ?ep0 t = Some ids0"
      "set ids = set ids0 \<union> {id' x |x. x \<in> set nodes \<and> type' x = t}" by blast
    from map_of_empty_lists [OF ids0(1)] ids0(2) absent have "i \<notin> set ids"
      by (auto simp: node_key_def image_iff)
    with ids(2) show ?thesis by simp
  qed
  with n' items'(2) m' have g: "get_node (job_nodes m') t i = Inr (n\<lparr>is_released := True\<rparr>)"
    by (simp add: get_node_def)
  from fr obtain cs where cs: "fired m1 = fired m @ cs" "\<forall>c \<in> set cs. call_key c \<in> node_key ` set nodes"
    by blast
  from cs(2) absent have "\<forall>c \<in> set cs. call_key c \<noteq> (t, i)" by metis
  with cs(1) m' have "\<exists>cs. fired m' = fired m @ cs \<and> (\<forall>c \<in> set cs. call_key c \<noteq> (t, i))"
    by simp
  with g show ?thesis by simp
qed

theorem process_list_nodes_releases_missing_witness:
  "map_sum id (\<lambda>n. (status n, is_released n)) (get_node (job_nodes manager0) PS 0)
     = Inr (PENDING, False)
   \<and> (PS, 0) \<notin> node_key ` set [node0\<lparr>status := SUCCEEDED\<rparr>]
   \<and> (case process_list_nodes spec_state_flow 65536 manager0 [node0\<lparr>status := SUCCEEDED\<rparr>] of
         Inl e \<Rightarrow> False
       | Inr m' \<Rightarrow>
           map_sum id is_released (get_node (job_nodes m') PS 0) = Inr True
           \<and> fired m' = [(0, on_node_succeeded, WORKER, 0), (1, on_node_succeeded, WORKER, 0)])"
  using process_list_nodes_releases_missing
          [of spec_state_flow 65536 manager0 "[node0\<lparr>status := SUCCEEDED\<rparr>]" _ PS 0]
  by (simp add: scenario_defs node_key_def)

section \<open>Removal of the training nodes\<close>

text \<open>The loop marks every worker and parameter server that is \<^verbatim>\<open>RUNNING\<close> or
  \<^verbatim>\<open>PENDING\<close> and not yet released, leaves every other node as it was, and collects
  the names of the nodes it has marked, the workers first.\<close>

lemma remove_training_nodes_effect:
  assumes "remove_training_nodes_body m = Inr (m', plan)"
  shows "map_sum id fst (remove_training_nodes m) = Inr m'
       \<and> (\<forall>t i. get_node (job_nodes m') t i =
              map_sum id (\<lambda>n. if (t = WORKER \<or> t = PS) \<and> removable n then mark_removed n else n)
                (get_node (job_nodes m) t i))
       \<and> (\<exists>workers pss. map_of (job_nodes m) WORKER = Some workers
             \<and> map_of (job_nodes m) PS = Some pss
             \<and> plan = map name (filter removable (map snd workers @ map snd pss)))"
proof -
  from assms obtain workers pss where
    w: "map_of (job_nodes m) WORKER = Some workers" and p: "map_of (job_nodes m) PS = Some pss"
    by (auto simp: remove_training_nodes_body_def split: option.splits)
  let ?f = "\<lambda>n. if removable n then mark_removed n else n"
  let ?g = "map (\<lambda>(i, n). (i, ?f n))"
  from assms w p have m': "job_nodes m' = AList.map_entry PS (\<lambda>_. ?g pss) (AList.map_entry WORKER (\<lambda>_. ?g workers) (job_nodes m))"
    and plan: "plan = map name (filter removable (map snd workers @ map snd pss))"
    by (auto simp: remove_training_nodes_body_def remove_loop_eq)
  have a: "map_sum id fst (remove_training_nodes m) = Inr m'"
    using assms by (simp add: remove_training_nodes_def)
  have b: "get_node (job_nodes m') t i =
              map_sum id (\<lambda>n. if (t = WORKER \<or> t = PS) \<and> removable n then mark_removed n else n)
                (get_node (job_nodes m) t i)" for t i
    unfolding m' get_node_def using w p
    by (auto simp: map_of_map_entry map_of_map_values split: option.splits)
  from a b w p plan show ?thesis by blast
qed

lemma remove_training_nodes_effect_manager0:
  "(case remove_training_nodes_body manager0 of
      Inl e \<Rightarrow> False
    | Inr (m', plan) \<Rightarrow>
        plan = [''worker-0'', ''ps-0'']
        \<and> get_node (job_nodes m') WORKER 0 = Inr (mark_removed node0)
        \<and> get_node (job_nodes m') WORKER 1 = get_node (job_nodes manager0) WORKER 1
        \<and> map_sum id status (get_node (job_nodes m') PS 0) = Inr DELETED
        \<and> get_node (job_nodes m') CHIEF 0 = get_node (job_nodes manager0) CHIEF 0)"
  using remove_training_nodes_effect [of manager0]
  by (simp add: scenario_defs mark_removed_def)

text \<open>A node that is already released is passed over by the guard of the loop: after
  \<^verbatim>\<open>stop()\<close> worker 0 stays \<^verbatim>\<open>RUNNING\<close> and relaunchable.\<close>

lemma released_running_node_not_removed:
  "map_sum id (\<lambda>n. (status n, relaunchable n, is_released n))
       (get_node (job_nodes (stop manager0)) WORKER 0) = Inr (RUNNING, True, True)
   \<and> map_sum id (\<lambda>r. map_sum id (\<lambda>n. (status n, relaunchable n, is_released n))
                       (get_node (job_nodes (fst r)) WORKER 0))
       (remove_training_nodes (stop manager0)) = Inr (Inr (RUNNING, True, True))"
  by (simp add: scenario_defs)

text \<open>The method has no \<^verbatim>\<open>return\<close> statement: whatever the index, the caller gets
  \<^verbatim>\<open>None\<close>.\<close>

lemma remove_training_nodes_returns_None:
  "remove_training_nodes m = Inr (m', r) \<Longrightarrow> r = None"
  by (auto simp: remove_training_nodes_def split: sum.splits)

text \<open>
  Claim C6. \<^verbatim>\<open>remove_training_nodes()\<close> marks every worker and parameter server
  that is \<^verbatim>\<open>RUNNING\<close> or \<^verbatim>\<open>PENDING\<close> as non-critical, non-relaunchable, released
  and \<^verbatim>\<open>DELETED\<close>, leaves the other nodes as they were, and returns a removal plan
  that lists the names of the removed nodes. The code does not keep the last part. On
  the index of scenario 6 the two running workers and the pending parameter server are
  marked and the worker that has succeeded is untouched, and the plan built by the loop
  names the three; but the method ends without returning it, and the caller gets
  \<^verbatim>\<open>None\<close>.
\<close>

theorem remove_training_nodes_returns_no_plan:
  "map_sum id snd (remove_training_nodes manager6) = Inr None
   \<and> map_sum id snd (remove_training_nodes_body manager6)
       = Inr [''worker-0'', ''worker-1'', ''ps-0'']
   \<and> map_sum id (\<lambda>r. map (\<lambda>(t, i). map_sum id
                          (\<lambda>n. (status n, critical n, relaunchable n, is_released n))
                          (get_node (job_nodes (fst r)) t i))
                     [(WORKER, 0), (WORKER, 1), (PS, 0)])
       (remove_training_nodes manager6)
       = Inr [Inr (DELETED, False, False, True), Inr (DELETED, False, False, True),
              Inr (DELETED, False, False, True)]
   \<and> map_sum id (\<lambda>r. get_node (job_nodes (fst r)) WORKER 2) (remove_training_nodes manager6)
       = Inr (get_node (job_nodes manager6) WORKER 2)"
  by (simp add: scenario_defs manager6_def)

end
